theory Spec2Isabelle
  imports Complex_Main
begin

section \<open>Objects held by reference\<close>

text \<open>
  The hooks pass JavaScript objects around by reference: the value that
  \<open>getQueryData\<close> returns is the very object the query cache holds, and the
  caller's \<open>state\<close> is mutated in place by \<open>optimisticUpdateFn\<close>. An object
  reference is an address; the store maps an address to the object's current contents.
\<close>

type_synonym addr = nat

section \<open>useOptimisticMutation\<close>

text \<open>
  What the hook does to its environment, in the order it does it. Reads of the cache
  leave no trace.
\<close>

datatype ('k, 'e, 'r) event =
    CancelQueries 'k
  | OptimisticUpdate
  | MutationFn
  | SetQueryData 'k "addr option"
  | CallerOnError 'e
  | CallerOnSuccess 'r
  | InvalidateQueries 'k

text \<open>
  The environment of the hook: the object store, and the \<open>QueryClient\<close> of
  @tanstack/react-query reduced to what the hook touches: the cached data of each query
  (a reference, absent when the query has no data), the queries with a fetch in flight,
  and the queries marked invalid.
\<close>

record ('k, 'v, 'e, 'r) world =
  heap :: "addr \<Rightarrow> 'v"
  queryData :: "'k \<rightharpoonup> addr"
  fetching :: "'k set"
  invalidated :: "'k set"
  trace :: "('k, 'e, 'r) event list"

text \<open>
  The library calls the hook makes, by their documented contract:
  \<open>getQueryData\<close> returns the cached reference or undefined; \<open>setQueryData\<close> with
  undefined changes nothing; \<open>cancelQueries\<close> stops the fetch in flight for the key;
  \<open>invalidateQueries\<close> marks the query invalid, which makes active observers refetch.
\<close>

definition getQueryData :: "'k \<Rightarrow> ('k, 'v, 'e, 'r) world \<Rightarrow> addr option" where
  "getQueryData k w = queryData w k"

definition setQueryData ::
  "'k \<Rightarrow> addr option \<Rightarrow> ('k, 'v, 'e, 'r) world \<Rightarrow> ('k, 'v, 'e, 'r) world" where
  "setQueryData k v w =
     (case v of
        None \<Rightarrow> w\<lparr>trace := trace w @ [SetQueryData k None]\<rparr>
      | Some a \<Rightarrow> w\<lparr>queryData := (queryData w)(k \<mapsto> a),
                     trace := trace w @ [SetQueryData k (Some a)]\<rparr>)"

definition cancelQueries :: "'k \<Rightarrow> ('k, 'v, 'e, 'r) world \<Rightarrow> ('k, 'v, 'e, 'r) world" where
  "cancelQueries k w = w\<lparr>fetching := fetching w - {k}, trace := trace w @ [CancelQueries k]\<rparr>"

definition invalidateQueries :: "'k \<Rightarrow> ('k, 'v, 'e, 'r) world \<Rightarrow> ('k, 'v, 'e, 'r) world" where
  "invalidateQueries k w =
     w\<lparr>invalidated := insert k (invalidated w), trace := trace w @ [InvalidateQueries k]\<rparr>"

text \<open>What a reader of the cache sees under a key: the contents of the cached object.\<close>

definition cachedValue :: "'k \<Rightarrow> ('k, 'v, 'e, 'r) world \<Rightarrow> 'v option" where
  "cachedValue k w = map_option (heap w) (getQueryData k w)"

text \<open>
  \<open>UseOptimisticMutationProps\<close>. \<open>state\<close> is a reference to the caller's state object;
  \<open>optimisticUpdateFn\<close> returns nothing and mutates that object, so it is the function
  from the object's contents to its new contents. \<open>mutationFn\<close> is the remote call:
  \<open>Inl\<close> when its promise rejects. \<open>onError\<close> and \<open>onSuccess\<close> say whether the caller
  gave the callback; \<open>shouldRefetchQuery\<close> is \<open>None\<close> when the caller left it out.
\<close>

record ('k, 'v, 'a, 'e, 'r) props =
  state :: addr
  mutationFn :: "'a \<Rightarrow> 'e + 'r"
  optimisticUpdateFn :: "'v \<Rightarrow> 'a \<Rightarrow> 'v"
  queryKey :: 'k
  onError :: bool
  onSuccess :: bool
  shouldRefetchQuery :: "bool option"

text \<open>The default of the destructured parameter: \<open>shouldRefetchQuery = true\<close>.\<close>

definition shouldRefetch :: "('k, 'v, 'a, 'e, 'r) props \<Rightarrow> bool" where
  "shouldRefetch p = (case shouldRefetchQuery p of None \<Rightarrow> True | Some b \<Rightarrow> b)"

record mutation_context =
  previousState :: "addr option"

definition hook_onMutate ::
  "('k, 'v, 'a, 'e, 'r) props \<Rightarrow> 'a \<Rightarrow> ('k, 'v, 'e, 'r) world
     \<Rightarrow> mutation_context \<times> ('k, 'v, 'e, 'r) world" where
  "hook_onMutate p variables w =
     (let w1 = cancelQueries (queryKey p) w;
          prev = getQueryData (queryKey p) w1;
          w2 = w1\<lparr>heap := (heap w1)(state p := optimisticUpdateFn p (heap w1 (state p)) variables),
                  trace := trace w1 @ [OptimisticUpdate]\<rparr>
      in (\<lparr>previousState = prev\<rparr>, w2))"

definition hook_onError ::
  "('k, 'v, 'a, 'e, 'r) props \<Rightarrow> 'e \<Rightarrow> 'a \<Rightarrow> mutation_context option \<Rightarrow> ('k, 'v, 'e, 'r) world
     \<Rightarrow> ('k, 'v, 'e, 'r) world" where
  "hook_onError p error variables ctx w =
     (let w1 = setQueryData (queryKey p) (case ctx of None \<Rightarrow> None | Some c \<Rightarrow> previousState c) w
      in if onError p then w1\<lparr>trace := trace w1 @ [CallerOnError error]\<rparr> else w1)"

definition hook_onSettled ::
  "('k, 'v, 'a, 'e, 'r) props \<Rightarrow> ('k, 'v, 'e, 'r) world \<Rightarrow> ('k, 'v, 'e, 'r) world" where
  "hook_onSettled p w = (if shouldRefetch p then invalidateQueries (queryKey p) w else w)"

definition hook_onSuccess ::
  "('k, 'v, 'a, 'e, 'r) props \<Rightarrow> 'r \<Rightarrow> ('k, 'v, 'e, 'r) world \<Rightarrow> ('k, 'v, 'e, 'r) world" where
  "hook_onSuccess p data w =
     (if onSuccess p then w\<lparr>trace := trace w @ [CallerOnSuccess data]\<rparr> else w)"

text \<open>
  \<open>mutate(variables)\<close> of the \<open>useMutation\<close> result. The library awaits \<open>onMutate\<close>,
  then calls \<open>mutationFn\<close>; when it resolves it calls \<open>onSuccess\<close> and then
  \<open>onSettled\<close>, when it rejects \<open>onError\<close> with the context \<open>onMutate\<close> returned and
  then \<open>onSettled\<close>.
\<close>

definition mutate ::
  "('k, 'v, 'a, 'e, 'r) props \<Rightarrow> 'a \<Rightarrow> ('k, 'v, 'e, 'r) world \<Rightarrow> ('k, 'v, 'e, 'r) world" where
  "mutate p variables w =
     (case hook_onMutate p variables w of
        (ctx, w1) \<Rightarrow>
          (let w2 = w1\<lparr>trace := trace w1 @ [MutationFn]\<rparr>
           in case mutationFn p variables of
                Inr data \<Rightarrow> hook_onSettled p (hook_onSuccess p data w2)
              | Inl error \<Rightarrow> hook_onSettled p (hook_onError p error variables (Some ctx) w2)))"

section \<open>usePagination\<close>

text \<open>
  JavaScript values as the hook's expressions see them: what \<open>data?.paging?.x\<close> can
  be, with the two operators the hook applies, \<open>||\<close> and \<open>!== null\<close>.
\<close>

datatype jsvalue = JUndefined | JNull | JBool bool | JNumber int

definition truthy :: "jsvalue \<Rightarrow> bool" where
  "truthy v = (case v of JUndefined \<Rightarrow> False | JNull \<Rightarrow> False | JBool b \<Rightarrow> b | JNumber n \<Rightarrow> n \<noteq> 0)"

definition js_or :: "jsvalue \<Rightarrow> jsvalue \<Rightarrow> jsvalue" where
  "js_or a b = (if truthy a then a else b)"

definition not_null :: "jsvalue \<Rightarrow> bool" where
  "not_null v = (case v of JNull \<Rightarrow> False | _ \<Rightarrow> True)"

text \<open>
  Modelled from the spec: the response of the fetch function, \<open>IResponseData\<close>, whose
  declaration (\<open>~/types/api/general\<close>) is not among the sources. The spec gives the
  transport contract \<open>{data, paging?}\<close> with paging metadata
  \<open>{totalItems, totalPages, hasNextPage, hasPreviousPage}\<close>. The fields are kept as
  JavaScript values, since the hook tests them against \<open>null\<close>.
\<close>

record paging =
  paging_totalItems :: jsvalue
  paging_totalPages :: jsvalue
  paging_hasNextPage :: jsvalue
  paging_hasPreviousPage :: jsvalue

record 'a response =
  resp_data :: 'a
  resp_paging :: "paging option"

text \<open>The optional chain \<open>data?.paging?.f\<close>: undefined when a link is missing.\<close>

definition paging_field :: "(paging \<Rightarrow> jsvalue) \<Rightarrow> 'a response option \<Rightarrow> jsvalue" where
  "paging_field f d =
     (case d of
        None \<Rightarrow> JUndefined
      | Some r \<Rightarrow> (case resp_paging r of None \<Rightarrow> JUndefined | Some pg \<Rightarrow> f pg))"

text \<open>
  The two \<open>useState\<close> cells of the hook, and their setters, which the hook returns as
  React gives them. A JavaScript number is a real here (NaN and the infinities aside):
  nothing in the hook makes a page index an integer.
\<close>

record pagination_state =
  pageSize :: real
  pageIndex :: real

definition initialState :: "real option \<Rightarrow> pagination_state" where
  "initialState initialPageSize =
     \<lparr>pageSize = (case initialPageSize of None \<Rightarrow> 10 | Some n \<Rightarrow> if n = 0 then 10 else n),
      pageIndex = 0\<rparr>"

definition setPageIndex :: "real \<Rightarrow> pagination_state \<Rightarrow> pagination_state" where
  "setPageIndex i s = s\<lparr>pageIndex := i\<rparr>"

definition setPageSize :: "real \<Rightarrow> pagination_state \<Rightarrow> pagination_state" where
  "setPageSize n s = s\<lparr>pageSize := n\<rparr>"

datatype key_part = KeyString string | KeyNumber real

text \<open>
  The query function of the options: the hook's own, which calls
  \<open>fetchItems(pageIndex, pageSize)\<close>, or one a caller's filters object brings.
\<close>

datatype query_fn = FetchItems real real | CallerQueryFn

text \<open>
  \<open>UseQueryOptions\<close>, the fields the hook sets. \<open>opt_keepPreviousData\<close> says whether
  \<open>placeholderData\<close> is \<open>keepPreviousData\<close>; \<open>opt_enabled\<close> is a boolean or undefined
  (\<open>None\<close>).
\<close>

record query_options =
  opt_queryKey :: "key_part list"
  opt_queryFn :: query_fn
  opt_keepPreviousData :: bool
  opt_enabled :: "bool option"

text \<open>
  The caller's filters object, by the own keys it has among these fields: \<open>None\<close> for
  a key the object does not have, \<open>Some\<close> of its value otherwise (the value of
  \<open>enabled\<close> may itself be undefined). The type \<open>QueryFilters\<close> leaves out \<open>queryKey\<close>,
  \<open>queryFn\<close> and \<open>enabled\<close>, which the compiler checks on object literals only; at run
  time the object may carry them, and the spread in \<open>mergeQueryOptions\<close> copies every
  key the object has over the defaults.
\<close>

record query_filters =
  flt_queryKey :: "key_part list option"
  flt_queryFn :: "query_fn option"
  flt_keepPreviousData :: "bool option"
  flt_enabled :: "bool option option"

definition mergeQueryOptions :: "query_options \<Rightarrow> query_filters option \<Rightarrow> query_options" where
  "mergeQueryOptions defaultOpts queryFilters =
     (case queryFilters of
        None \<Rightarrow> defaultOpts
      | Some f \<Rightarrow>
          \<lparr>opt_queryKey = (case flt_queryKey f of None \<Rightarrow> opt_queryKey defaultOpts | Some k \<Rightarrow> k),
           opt_queryFn = (case flt_queryFn f of None \<Rightarrow> opt_queryFn defaultOpts | Some q \<Rightarrow> q),
           opt_keepPreviousData =
             (case flt_keepPreviousData f of None \<Rightarrow> opt_keepPreviousData defaultOpts | Some b \<Rightarrow> b),
           opt_enabled = (case flt_enabled f of None \<Rightarrow> opt_enabled defaultOpts | Some e \<Rightarrow> e)\<rparr>)"

text \<open>The \<open>enabled\<close> key the filters object has of its own: \<open>None\<close> when it has none.\<close>

definition ownEnabled :: "query_filters option \<Rightarrow> bool option option" where
  "ownEnabled queryFilters = (case queryFilters of None \<Rightarrow> None | Some f \<Rightarrow> flt_enabled f)"

text \<open>\<open>enabled\<close> is \<open>None\<close> when the caller leaves it out: the parameter's default is true.\<close>

definition defaultOptions :: "key_part list \<Rightarrow> bool option \<Rightarrow> pagination_state \<Rightarrow> query_options" where
  "defaultOptions qk enabled s =
     \<lparr>opt_queryKey = qk @ [KeyNumber (pageIndex s), KeyNumber (pageSize s)],
      opt_queryFn = FetchItems (pageIndex s) (pageSize s),
      opt_keepPreviousData = True,
      opt_enabled = Some (pageIndex s > - 1 \<and> (case enabled of None \<Rightarrow> True | Some b \<Rightarrow> b))\<rparr>"

definition usePagination_options ::
  "key_part list \<Rightarrow> bool option \<Rightarrow> query_filters option \<Rightarrow> pagination_state \<Rightarrow> query_options" where
  "usePagination_options qk enabled queryFilters s =
     mergeQueryOptions (defaultOptions qk enabled s) queryFilters"

text \<open>\<open>fetchItems\<close> logs a rejection and throws it again: the outcome is that of \<open>fetchData\<close>.\<close>

definition fetchItems ::
  "(real \<Rightarrow> real \<Rightarrow> 'e + 'a response) \<Rightarrow> real \<Rightarrow> real \<Rightarrow> 'e + 'a response" where
  "fetchItems fetchData pIndex pSize =
     (case fetchData pIndex pSize of Inl error \<Rightarrow> Inl error | Inr resp \<Rightarrow> Inr resp)"

text \<open>
  \<open>useQuery\<close> of the library calls the query function only for a query that is not
  disabled, that is, whose \<open>enabled\<close> is not \<open>false\<close>; whether such a query needs a
  fetch (no fresh data under its key) is the library's decision, taken here as
  \<open>needsFetch\<close>. The result is the call issued, if any.
\<close>

definition isEnabled :: "query_options \<Rightarrow> bool" where
  "isEnabled opts = (case opt_enabled opts of None \<Rightarrow> True | Some b \<Rightarrow> b)"

definition issuedFetch :: "query_options \<Rightarrow> bool \<Rightarrow> query_fn option" where
  "issuedFetch opts needsFetch = (if isEnabled opts \<and> needsFetch then Some (opt_queryFn opts) else None)"

text \<open>
  What the hook returns, computed from its state and from \<open>data\<close>, the response
  \<open>useQuery\<close> holds (that of the last successful fetch, undefined before one).
  \<open>isLoading\<close> and \<open>isFetching\<close> are handed through from the library and left out.
\<close>

record 'a pagination_result = pagination_state +
  data :: "'a option"
  total :: jsvalue
  hasNextPage :: bool
  hasPreviousPage :: bool
  totalPages :: jsvalue

definition usePagination :: "pagination_state \<Rightarrow> 'a response option \<Rightarrow> 'a pagination_result" where
  "usePagination s d =
     \<lparr>pageSize = pageSize s,
      pageIndex = pageIndex s,
      data = map_option resp_data d,
      total = paging_field paging_totalItems d,
      hasNextPage = not_null (paging_field paging_hasNextPage d),
      hasPreviousPage = (not_null (paging_field paging_hasPreviousPage d) \<or> False),
      totalPages = js_or (paging_field paging_totalPages d) (JNumber 0)\<rparr>"

section \<open>useSocket\<close>

text \<open>
  The socket of socket.io-client, reduced to what the hook calls, by the documented
  contract of its emitter: \<open>on\<close> adds a listener after those already registered for the
  event; \<open>off\<close> called with an event name and no listener removes every listener of
  that event; \<open>emit\<close> throws for a reserved event name and otherwise sends (or
  buffers) the packet; \<open>connect\<close> opens the connection.
\<close>

datatype 'h listener = SetIsConnected bool | Callback 'h

datatype socket_error = ReservedEventName string

record ('h, 'p) socket =
  listeners :: "(string \<times> 'h listener) list"
  opened :: bool
  sent :: "(string \<times> 'p list) list"

definition reserved_events :: "string list" where
  "reserved_events =
     [''connect'', ''connect_error'', ''disconnect'', ''disconnecting'', ''newListener'', ''removeListener'']"

definition io :: "('h, 'p) socket" where
  "io = \<lparr>listeners = [], opened = True, sent = []\<rparr>"

definition socket_on :: "string \<Rightarrow> 'h listener \<Rightarrow> ('h, 'p) socket \<Rightarrow> ('h, 'p) socket" where
  "socket_on event l s = s\<lparr>listeners := listeners s @ [(event, l)]\<rparr>"

definition socket_off :: "string \<Rightarrow> ('h, 'p) socket \<Rightarrow> ('h, 'p) socket" where
  "socket_off event s = s\<lparr>listeners := filter (\<lambda>(e, l). e \<noteq> event) (listeners s)\<rparr>"

definition socket_emit :: "string \<Rightarrow> 'p list \<Rightarrow> ('h, 'p) socket \<Rightarrow> socket_error + ('h, 'p) socket" where
  "socket_emit event args s =
     (if event \<in> set reserved_events then Inl (ReservedEventName event)
      else Inr (s\<lparr>sent := sent s @ [(event, args)]\<rparr>))"

definition socket_connect :: "('h, 'p) socket \<Rightarrow> ('h, 'p) socket" where
  "socket_connect s = s\<lparr>opened := True\<rparr>"

definition socket_disconnect :: "('h, 'p) socket \<Rightarrow> ('h, 'p) socket" where
  "socket_disconnect s = s\<lparr>opened := False\<rparr>"

text \<open>
  The hook: \<open>socketRef.current\<close> (null until the effect has run), and the two
  \<open>useState\<close> cells. Nothing in the hook calls \<open>setEventData\<close>.
\<close>

record ('h, 'p) socket_hook =
  socketRef :: "('h, 'p) socket option"
  isConnected :: bool
  eventData :: "string \<rightharpoonup> 'p"

definition useSocket :: "('h, 'p) socket_hook" where
  "useSocket = \<lparr>socketRef = None, isConnected = False, eventData = Map.empty\<rparr>"

definition useSocket_effect :: "('h, 'p) socket_hook \<Rightarrow> ('h, 'p) socket_hook" where
  "useSocket_effect h =
     h\<lparr>socketRef :=
         Some (socket_on ''disconnect'' (SetIsConnected False)
                (socket_on ''connect'' (SetIsConnected True) io))\<rparr>"

definition useSocket_cleanup :: "('h, 'p) socket_hook \<Rightarrow> ('h, 'p) socket_hook" where
  "useSocket_cleanup h =
     (case socketRef h of
        None \<Rightarrow> h
      | Some s \<Rightarrow> h\<lparr>socketRef := Some (socket_disconnect s)\<rparr>)"

definition emit :: "string \<Rightarrow> 'p list \<Rightarrow> ('h, 'p) socket_hook \<Rightarrow> socket_error + ('h, 'p) socket_hook" where
  "emit event args h =
     (case socketRef h of
        None \<Rightarrow> Inr h
      | Some s \<Rightarrow>
          (case socket_emit event args s of
             Inl err \<Rightarrow> Inl err
           | Inr s' \<Rightarrow> Inr (h\<lparr>socketRef := Some s'\<rparr>)))"

definition on :: "string \<Rightarrow> 'h \<Rightarrow> ('h, 'p) socket_hook \<Rightarrow> ('h, 'p) socket_hook" where
  "on event callback h =
     (case socketRef h of
        None \<Rightarrow> h
      | Some s \<Rightarrow> h\<lparr>socketRef := Some (socket_on event (Callback callback) s)\<rparr>)"

definition off :: "string \<Rightarrow> ('h, 'p) socket_hook \<Rightarrow> ('h, 'p) socket_hook" where
  "off event h =
     (case socketRef h of
        None \<Rightarrow> h
      | Some s \<Rightarrow> h\<lparr>socketRef := Some (socket_off event s)\<rparr>)"

definition reconnect :: "('h, 'p) socket_hook \<Rightarrow> ('h, 'p) socket_hook" where
  "reconnect h =
     (case socketRef h of
        None \<Rightarrow> h
      | Some s \<Rightarrow> h\<lparr>socketRef := Some (socket_connect s)\<rparr>)"

text \<open>The listeners registered for an event, in the order of their registration.\<close>

definition handlersFor :: "string \<Rightarrow> ('h, 'p) socket_hook \<Rightarrow> 'h listener list" where
  "handlersFor event h =
     (case socketRef h of
        None \<Rightarrow> []
      | Some s \<Rightarrow> map snd (filter (\<lambda>(e, l). e = event) (listeners s)))"

section \<open>Query execution engine\<close>

text \<open>
  Modelled from the spec: the Query Execution Engine of section 4.2. In the repository
  it is \<open>useQuery\<close> of @tanstack/react-query, which is not among the sources;
  \<open>usePagination\<close> only hands it the options, and the key of the options holds the
  resource key and the window. The spec's words: if an identical (key, window) fetch is
  already in flight, \<open>query\<close> returns the same pending result to all callers instead of
  issuing a duplicate request. A pending result is named by the number of the fetch
  invocation behind it; \<open>resolve\<close> is the completion of the fetch.
\<close>

record engine =
  inFlight :: "key_part list \<rightharpoonup> nat"
  invocations :: "key_part list list"

definition query :: "key_part list \<Rightarrow> engine \<Rightarrow> nat \<times> engine" where
  "query k en =
     (case inFlight en k of
        Some p \<Rightarrow> (p, en)
      | None \<Rightarrow>
          (let p = length (invocations en)
           in (p, en\<lparr>inFlight := (inFlight en)(k \<mapsto> p), invocations := invocations en @ [k]\<rparr>)))"

definition resolve :: "key_part list \<Rightarrow> engine \<Rightarrow> engine" where
  "resolve k en = en\<lparr>inFlight := (inFlight en)(k := None)\<rparr>"

text \<open>Calls issued one after the other with no completion in between.\<close>

fun queries :: "key_part list list \<Rightarrow> engine \<Rightarrow> nat list \<times> engine" where
  "queries [] en = ([], en)"
| "queries (k # ks) en =
     (case query k en of
        (p, en1) \<Rightarrow> (case queries ks en1 of (ps, en2) \<Rightarrow> (p # ps, en2)))"

section \<open>Example inputs\<close>

text \<open>
  A cache holding one todo object (title and done flag) under the key \<open>todos\<close>, with a
  fetch of that key in flight; a mutation whose remote call rejects and whose optimistic
  update sets the done flag. \<open>todo_props a\<close> takes the reference of the state object:
  \<open>0\<close> is the cached object itself, \<open>1\<close> another object with the same contents.
\<close>

definition todo_world :: "(string list, string \<times> bool, string, string) world" where
  "todo_world =
     \<lparr>heap = (\<lambda>a. (''A'', False)), queryData = [[''todos''] \<mapsto> 0],
      fetching = {[''todos'']}, invalidated = {}, trace = []\<rparr>"

definition todo_props :: "addr \<Rightarrow> (string list, string \<times> bool, bool, string, string) props" where
  "todo_props a =
     \<lparr>state = a, mutationFn = (\<lambda>v. Inl ''rejected''),
      optimisticUpdateFn = (\<lambda>(title, done) v. (title, v)), queryKey = [''todos''],
      onError = True, onSuccess = True, shouldRefetchQuery = None\<rparr>"

text \<open>The response for the last of three pages of 25 users.\<close>

definition last_page :: "string list response" where
  "last_page =
     \<lparr>resp_data = [''u21'', ''u22'', ''u23'', ''u24'', ''u25''],
      resp_paging = Some \<lparr>paging_totalItems = JNumber 25, paging_totalPages = JNumber 3,
                          paging_hasNextPage = JBool False, paging_hasPreviousPage = JBool True\<rparr>\<rparr>"

text \<open>The socket hook once its effect has run, with handlers named by numbers.\<close>

definition mounted :: "(nat, string) socket_hook" where
  "mounted = useSocket_effect useSocket"


definition enabling_filters :: query_filters where
  "enabling_filters =
     \<lparr>flt_queryKey = None, flt_queryFn = None, flt_keepPreviousData = None,
      flt_enabled = Some (Some True)\<rparr>"

definition users_key :: "key_part list" where
  "users_key = opt_queryKey (usePagination_options [KeyString ''users''] None None (initialState None))"

definition idle_engine :: engine where
  "idle_engine = \<lparr>inFlight = Map.empty, invocations = []\<rparr>"

section \<open>Properties of useOptimisticMutation\<close>

lemmas client_defs = getQueryData_def setQueryData_def cancelQueries_def invalidateQueries_def

lemmas hook_defs = hook_onMutate_def hook_onError_def hook_onSettled_def hook_onSuccess_def

lemmas todo_defs = todo_world_def todo_props_def

text \<open>
  A failed mutation leaves every cached reference as it was: \<open>onMutate\<close> writes no
  reference, and \<open>onError\<close> writes back the one it read.
\<close>

lemma failed_mutate_queryData:
  "mutationFn p v = Inl e \<Longrightarrow> queryData (mutate p v w) = queryData w"
  by (cases "queryData w (queryKey p)")
     (auto simp add: mutate_def hook_defs client_defs Let_def fun_upd_idem)

text \<open>
  When the state object is the cached object, the cache holds the optimistic value
  after the mutation has failed, whatever the update and the error.
\<close>

lemma failed_mutate_cachedValue:
  "mutationFn p v = Inl e \<Longrightarrow> getQueryData (queryKey p) w = Some (state p) \<Longrightarrow>
   cachedValue (queryKey p) (mutate p v w) = Some (optimisticUpdateFn p (heap w (state p)) v)"
  by (simp add: cachedValue_def mutate_def hook_defs client_defs Let_def)

text \<open>
  Claim C1 (rollback). The claim: after a mutation whose remote call rejects, the value
  cached under \<open>queryKey\<close> equals the value \<open>getQueryData\<close> returned before \<open>mutate\<close>.
  The snapshot is a reference, not a copy. When the state object is the cached object
  the optimistic update changes the object the snapshot refers to, and the rollback
  writes that same object back: the cache holds the todo with \<open>done = False\<close> before
  the mutation and with \<open>done = True\<close> after it has failed.
\<close>

theorem rollback_keeps_optimistic_value:
  "cachedValue [''todos''] todo_world = Some (''A'', False) \<and>
   getQueryData [''todos''] todo_world = Some (state (todo_props 0)) \<and>
   mutationFn (todo_props 0) True = Inl ''rejected'' \<and>
   cachedValue [''todos''] (mutate (todo_props 0) True todo_world) = Some (''A'', True)"
  by (simp add: todo_defs cachedValue_def mutate_def hook_defs client_defs shouldRefetch_def Let_def)

text \<open>
  Claim C2 (optimistic apply), as stated: a read of the cache entry after \<open>onMutate\<close>
  sees the optimistic value. It fails when the caller's state object is not the cached
  object: the update would set \<open>done\<close>, the cache still holds \<open>done = False\<close>.
\<close>

theorem optimistic_update_misses_cache:
  "optimisticUpdateFn (todo_props 1) (''A'', False) True = (''A'', True) \<and>
   cachedValue [''todos''] todo_world = Some (''A'', False) \<and>
   cachedValue [''todos''] (snd (hook_onMutate (todo_props 1) True todo_world)) = Some (''A'', False)"
  by (simp add: todo_defs cachedValue_def hook_defs client_defs Let_def)

text \<open>
  Claim C2, amended: \<open>onMutate\<close> applies the optimistic update in place to the caller's
  state object. A read of the cache entry under \<open>queryKey\<close> made after \<open>onMutate\<close> and
  before the remote call settles sees the updated value when the state object is the
  object cached under \<open>queryKey\<close>.
\<close>

theorem optimistic_update_on_state_object:
  "heap (snd (hook_onMutate p v w)) (state p) = optimisticUpdateFn p (heap w (state p)) v \<and>
   (getQueryData (queryKey p) w = Some (state p) \<longrightarrow>
      cachedValue (queryKey p) (snd (hook_onMutate p v w))
        = Some (optimisticUpdateFn p (heap w (state p)) v))"
  by (simp add: cachedValue_def hook_defs client_defs Let_def)

theorem optimistic_update_on_state_object_witness:
  "getQueryData [''todos''] todo_world = Some (state (todo_props 0)) \<and>
   heap (snd (hook_onMutate (todo_props 0) True todo_world)) (state (todo_props 0)) = (''A'', True) \<and>
   cachedValue [''todos''] (snd (hook_onMutate (todo_props 0) True todo_world)) = Some (''A'', True)"
  using optimistic_update_on_state_object [of "todo_props 0" True todo_world]
  by (simp add: todo_defs client_defs)

text \<open>
  Claim C3 (no refetch after a failure), as stated: with \<open>shouldRefetchQuery\<close> left at
  its default, a failed mutation restores the snapshot, delivers the error and does not
  invalidate \<open>queryKey\<close>. It does: \<open>onSettled\<close> runs after \<open>onError\<close> too.
\<close>

theorem failed_mutation_invalidates:
  "mutationFn (todo_props 0) True = Inl ''rejected'' \<and>
   shouldRefetchQuery (todo_props 0) = None \<and>
   trace (mutate (todo_props 0) True todo_world) =
     [CancelQueries [''todos''], OptimisticUpdate, MutationFn,
      SetQueryData [''todos''] (Some 0), CallerOnError ''rejected'',
      InvalidateQueries [''todos'']] \<and>
   [''todos''] \<in> invalidated (mutate (todo_props 0) True todo_world)"
  by (simp add: todo_defs mutate_def hook_defs client_defs shouldRefetch_def Let_def)

text \<open>
  Claim C3, amended: \<open>onSettled\<close> invalidates \<open>queryKey\<close> whenever \<open>shouldRefetchQuery\<close>
  is true (the default), after a failed remote call as after a successful one, and never
  when it is false. After a failure the hook writes the snapshot back, calls the error
  callback if there is one, and then invalidates; after a success it calls the success
  callback if there is one, and then invalidates.
\<close>

theorem settled_invalidates_when_enabled:
  "trace (mutate p v w) =
     trace w @ [CancelQueries (queryKey p), OptimisticUpdate, MutationFn] @
     (case mutationFn p v of
        Inl e \<Rightarrow> SetQueryData (queryKey p) (getQueryData (queryKey p) w) #
                 (if onError p then [CallerOnError e] else [])
      | Inr r \<Rightarrow> (if onSuccess p then [CallerOnSuccess r] else [])) @
     (if shouldRefetch p then [InvalidateQueries (queryKey p)] else []) \<and>
   invalidated (mutate p v w) =
     (if shouldRefetch p then insert (queryKey p) (invalidated w) else invalidated w)"
  by (simp add: mutate_def hook_defs client_defs Let_def split: sum.splits option.splits)

text \<open>
  Claim C9 (ordering), as stated: the optimistic apply is observable before the remote
  mutation function begins. With a state object that is not the cached object, the
  remote call begins right after \<open>onMutate\<close> while the cache entry under \<open>queryKey\<close>
  still holds \<open>done = False\<close>, although the update sets \<open>done\<close>.
\<close>

theorem optimistic_apply_unseen_at_remote_call:
  "trace (snd (hook_onMutate (todo_props 1) True todo_world))
     = [CancelQueries [''todos''], OptimisticUpdate] \<and>
   trace (mutate (todo_props 1) True todo_world) =
     [CancelQueries [''todos''], OptimisticUpdate, MutationFn,
      SetQueryData [''todos''] (Some 0), CallerOnError ''rejected'',
      InvalidateQueries [''todos'']] \<and>
   optimisticUpdateFn (todo_props 1) (heap todo_world 0) True = (''A'', True) \<and>
   cachedValue [''todos''] (snd (hook_onMutate (todo_props 1) True todo_world))
     = Some (''A'', False)"
  by (simp add: todo_defs cachedValue_def mutate_def hook_defs client_defs shouldRefetch_def Let_def)

text \<open>
  Claim C9, amended: \<open>onMutate\<close> cancels the queries of \<open>queryKey\<close> and only then
  applies the optimistic update, so that no fetch of \<open>queryKey\<close> is in flight when it
  returns; the remote mutation function is invoked after \<open>onMutate\<close> has finished, and
  what follows is decided by its outcome. When it is invoked the update is in effect on
  the caller's state object, and stays so; it is observable in the cache entry under
  \<open>queryKey\<close> when the state object is the object cached there.
\<close>

theorem cancel_then_update_then_remote:
  "trace (snd (hook_onMutate p v w)) = trace w @ [CancelQueries (queryKey p), OptimisticUpdate] \<and>
   queryKey p \<notin> fetching (snd (hook_onMutate p v w)) \<and>
   heap (snd (hook_onMutate p v w)) (state p) = optimisticUpdateFn p (heap w (state p)) v \<and>
   (getQueryData (queryKey p) w = Some (state p) \<longrightarrow>
      cachedValue (queryKey p) (snd (hook_onMutate p v w))
        = Some (optimisticUpdateFn p (heap w (state p)) v)) \<and>
   trace (mutate p v w) =
     trace (snd (hook_onMutate p v w)) @ MutationFn #
     (case mutationFn p v of
        Inl e \<Rightarrow> SetQueryData (queryKey p) (getQueryData (queryKey p) w) #
                 (if onError p then [CallerOnError e] else [])
      | Inr r \<Rightarrow> (if onSuccess p then [CallerOnSuccess r] else [])) @
     (if shouldRefetch p then [InvalidateQueries (queryKey p)] else []) \<and>
   heap (mutate p v w) = heap (snd (hook_onMutate p v w))"
  by (simp add: cachedValue_def mutate_def hook_defs client_defs Let_def
      split: sum.splits option.splits)

theorem cancel_then_update_then_remote_witness:
  "getQueryData [''todos''] todo_world = Some (state (todo_props 0)) \<and>
   [''todos''] \<in> fetching todo_world \<and>
   [''todos''] \<notin> fetching (snd (hook_onMutate (todo_props 0) True todo_world)) \<and>
   trace (snd (hook_onMutate (todo_props 0) True todo_world))
     = [CancelQueries [''todos''], OptimisticUpdate] \<and>
   cachedValue [''todos''] (snd (hook_onMutate (todo_props 0) True todo_world))
     = Some (''A'', True) \<and>
   trace (mutate (todo_props 0) True todo_world) =
     [CancelQueries [''todos''], OptimisticUpdate, MutationFn,
      SetQueryData [''todos''] (Some 0), CallerOnError ''rejected'',
      InvalidateQueries [''todos'']]"
  using cancel_then_update_then_remote [of "todo_props 0" True todo_world]
  by (simp add: todo_defs client_defs shouldRefetch_def)

section \<open>Properties of usePagination\<close>

lemmas options_defs = usePagination_options_def mergeQueryOptions_def defaultOptions_def

text \<open>An enabled query is fetched with the stored window.\<close>

lemma enabled_query_fetches_window:
  "issuedFetch (usePagination_options [KeyString ''users''] None None
     (setPageIndex 1 (initialState None))) True = Some (FetchItems 1 10)"
  by (simp add: options_defs issuedFetch_def isEnabled_def setPageIndex_def initialState_def)

text \<open>
  The guard is \<open>pageIndex > -1\<close>: an index between \<open>-1\<close> and \<open>0\<close> leaves the query
  enabled.
\<close>

lemma fractional_negative_index_fetches:
  "issuedFetch (usePagination_options [KeyString ''users''] None None
     (setPageIndex (- 1 / 2) (initialState None))) True = Some (FetchItems (- 1 / 2) 10)"
  by (simp add: options_defs issuedFetch_def isEnabled_def setPageIndex_def initialState_def)

text \<open>
  A filters object that carries \<open>enabled: true\<close> overrides the guard: the query is
  fetched at the index \<open>-1\<close>.
\<close>

lemma own_enabled_overrides_guard:
  "ownEnabled (Some enabling_filters) = Some (Some True) \<and>
   issuedFetch (usePagination_options [KeyString ''users''] None (Some enabling_filters)
     (setPageIndex (- 1) (initialState None))) True = Some (FetchItems (- 1) 10)"
  by (simp add: options_defs issuedFetch_def isEnabled_def setPageIndex_def initialState_def
      ownEnabled_def enabling_filters_def)




text \<open>
  Claim C5 (paging metadata). The claim: the hook's \<open>total\<close>, \<open>hasNextPage\<close>,
  \<open>hasPreviousPage\<close> and \<open>totalPages\<close> are those of the response. The hook tests
  \<open>hasNextPage\<close> and \<open>hasPreviousPage\<close> against \<open>null\<close> only: for the last of three
  pages, whose metadata reports \<open>hasNextPage = false\<close>, it returns \<open>hasNextPage = true\<close>.
  \<open>total\<close> and \<open>totalPages\<close> are the reported ones.
\<close>

theorem hasNextPage_true_on_last_page:
  "paging_field paging_hasNextPage (Some last_page) = JBool False \<and>
   hasNextPage (usePagination s (Some last_page)) \<and>
   hasPreviousPage (usePagination s (Some last_page)) \<and>
   total (usePagination s (Some last_page)) = JNumber 25 \<and>
   totalPages (usePagination s (Some last_page)) = JNumber 3"
  by (simp add: usePagination_def last_page_def paging_field_def not_null_def js_or_def truthy_def)

section \<open>Properties of useSocket\<close>

lemmas socket_defs = socket_on_def socket_off_def socket_emit_def socket_connect_def

lemmas mounted_defs = mounted_def useSocket_effect_def useSocket_def io_def

lemma filter_other_event:
  "e' \<noteq> e \<Longrightarrow>
   filter (\<lambda>(a, l). a = e') (filter (\<lambda>(a, l). a \<noteq> e) xs) = filter (\<lambda>(a, l). a = e') xs"
  by (induction xs) auto

lemma filter_same_event:
  "filter (\<lambda>(a, l). a = e) (filter (\<lambda>(a, l). a \<noteq> e) xs) = []"
  by (induction xs) auto

text \<open>With a socket, \<open>emit\<close> of a reserved event name raises the socket's error.\<close>

lemma emit_reserved_event:
  "emit ''connect'' [''x''] mounted = Inl (ReservedEventName ''connect'')"
  by (simp add: mounted_defs emit_def socket_defs reserved_events_def)

text \<open>
  Claim C6 (registration), as stated: \<open>off(event)\<close> removes only the most recent
  registration, so after \<open>on(e, h1); on(e, h2); off(e)\<close> the handler \<open>h1\<close> is still
  registered. The hook's \<open>off\<close> passes the event name alone to the socket, which then
  drops every listener of the event: none is left.
\<close>

theorem off_removes_every_handler:
  "handlersFor ''message'' (on ''message'' 2 (on ''message'' 1 mounted))
     = [Callback 1, Callback 2] \<and>
   handlersFor ''message'' (off ''message'' (on ''message'' 2 (on ''message'' 1 mounted))) = [] \<and>
   Callback 1 \<notin> set (handlersFor ''message''
     (off ''message'' (on ''message'' 2 (on ''message'' 1 mounted))))"
  by (simp add: mounted_defs on_def off_def handlersFor_def socket_defs)

text \<open>
  Claim C6, amended: once the socket is initialised, each \<open>on(event, handler)\<close> adds
  exactly one registration of the handler for that event, after those already there,
  and \<open>off(event)\<close> removes every registration for that event name; the registrations
  for other events are untouched by both.
\<close>

theorem on_appends_off_clears:
  "socketRef h \<noteq> None \<Longrightarrow>
   handlersFor e (on e cb h) = handlersFor e h @ [Callback cb] \<and>
   handlersFor e (off e h) = [] \<and>
   (e' \<noteq> e \<longrightarrow> handlersFor e' (on e cb h) = handlersFor e' h \<and>
               handlersFor e' (off e h) = handlersFor e' h)"
  by (auto simp add: on_def off_def handlersFor_def socket_defs
      filter_other_event filter_same_event simp del: filter_filter split: option.splits)

theorem on_appends_off_clears_witness:
  "socketRef mounted \<noteq> None \<and>
   handlersFor ''message'' (on ''message'' 1 mounted) = [Callback 1] \<and>
   handlersFor ''message'' (off ''message'' mounted) = [] \<and>
   ''connect'' \<noteq> ''message'' \<and>
   handlersFor ''connect'' (on ''message'' 1 mounted) = [SetIsConnected True] \<and>
   handlersFor ''connect'' (off ''message'' mounted) = [SetIsConnected True]"
proof -
  have m: "socketRef mounted \<noteq> None"
    by (simp add: mounted_defs)
  have base: "handlersFor ''message'' mounted = []"
    "handlersFor ''connect'' mounted = [SetIsConnected True]"
    by (simp_all add: mounted_defs handlersFor_def socket_defs)
  show ?thesis
    using m base on_appends_off_clears [OF m, of "''message''" 1 "''connect''"]
    by simp
qed

text \<open>
  Claim C10 (no socket). While \<open>socketRef.current\<close> is null, \<open>emit\<close>, \<open>on\<close>, \<open>off\<close>
  and \<open>reconnect\<close> do nothing: \<open>emit\<close> raises no error, and each call returns the hook
  as it was (connection flag, event data and the absent socket with its handlers).
\<close>

theorem calls_without_socket_are_noops:
  "socketRef h = None \<Longrightarrow>
   emit e args h = Inr h \<and> on e cb h = h \<and> off e h = h \<and> reconnect h = h"
  by (simp add: emit_def on_def off_def reconnect_def)

theorem calls_without_socket_are_noops_witness:
  "socketRef (useSocket :: (nat, string) socket_hook) = None \<and>
   emit ''connect'' [''x''] (useSocket :: (nat, string) socket_hook) = Inr useSocket \<and>
   on ''connect'' 1 (useSocket :: (nat, string) socket_hook) = useSocket \<and>
   off ''connect'' (useSocket :: (nat, string) socket_hook) = useSocket \<and>
   reconnect (useSocket :: (nat, string) socket_hook) = useSocket"
proof -
  have n: "socketRef (useSocket :: (nat, string) socket_hook) = None"
    by (simp add: useSocket_def)
  show ?thesis
    using n calls_without_socket_are_noops
      [OF n, of "''connect''" "[''x'']" 1]
    by simp
qed

section \<open>Properties of the query execution engine\<close>

text \<open>
  Two instances of the hook build the same default key exactly when they agree on the
  resource key and on the window: the key ends with the page index and the page size.
\<close>

lemma opt_queryKey_same_window:
  "opt_queryKey (defaultOptions qk enabled s) = opt_queryKey (defaultOptions qk enabled' s')
   \<longleftrightarrow> pageIndex s = pageIndex s' \<and> pageSize s = pageSize s'"
  by (auto simp add: defaultOptions_def)

lemma query_in_flight: "inFlight en k = Some p \<Longrightarrow> query k en = (p, en)"
  by (simp add: query_def)

lemma query_starts:
  "inFlight en k = None \<Longrightarrow> query k en = (p, en') \<Longrightarrow>
   inFlight en' k = Some p \<and> count_list (invocations en') k = Suc (count_list (invocations en) k)"
  by (auto simp add: query_def Let_def)

lemma query_other:
  "k' \<noteq> k \<Longrightarrow> query k' en = (p', en') \<Longrightarrow>
   inFlight en' k = inFlight en k \<and> count_list (invocations en') k = count_list (invocations en) k"
  by (auto simp add: query_def Let_def split: option.splits)

text \<open>While a fetch of \<open>k\<close> is in flight, further calls start none and return its pending result.\<close>

lemma queries_in_flight:
  "inFlight en k = Some p \<Longrightarrow> queries ks en = (ps, en') \<Longrightarrow>
   inFlight en' k = Some p \<and> count_list (invocations en') k = count_list (invocations en) k \<and>
   (\<forall>i<length ks. ks ! i = k \<longrightarrow> ps ! i = p)"
proof (induction ks arbitrary: en ps en')
  case Nil
  then show ?case by simp
next
  case (Cons k' ks)
  obtain p' en1 where q: "query k' en = (p', en1)" by (cases "query k' en")
  obtain ps' en2 where qs: "queries ks en1 = (ps', en2)" by (cases "queries ks en1")
  from Cons.prems(2) q qs have ps: "ps = p' # ps'" and en': "en' = en2" by simp_all
  have keep: "inFlight en1 k = Some p \<and>
      count_list (invocations en1) k = count_list (invocations en) k \<and> (k' = k \<longrightarrow> p' = p)"
  proof (cases "k' = k")
    case True
    with Cons.prems(1) q show ?thesis by (simp add: query_in_flight)
  next
    case False
    with query_other [OF False q] Cons.prems(1) show ?thesis by simp
  qed
  from Cons.IH [of en1 ps' en2] keep qs
  have ih: "inFlight en2 k = Some p \<and>
      count_list (invocations en2) k = count_list (invocations en1) k \<and>
      (\<forall>i<length ks. ks ! i = k \<longrightarrow> ps' ! i = p)" by simp
  show ?case
    unfolding ps en' using ih keep by (auto simp add: nth_Cons split: nat.splits)
qed

lemma queries_first_fetch:
  "inFlight en k = None \<Longrightarrow> k \<in> set ks \<Longrightarrow> queries ks en = (ps, en') \<Longrightarrow>
   count_list (invocations en') k = Suc (count_list (invocations en) k) \<and>
   (\<exists>p. \<forall>i<length ks. ks ! i = k \<longrightarrow> ps ! i = p)"
proof (induction ks arbitrary: en ps en')
  case Nil
  then show ?case by simp
next
  case (Cons k' ks)
  obtain p' en1 where q: "query k' en = (p', en1)" by (cases "query k' en")
  obtain ps' en2 where qs: "queries ks en1 = (ps', en2)" by (cases "queries ks en1")
  from Cons.prems(3) q qs have ps: "ps = p' # ps'" and en': "en' = en2" by simp_all
  show ?case
  proof (cases "k' = k")
    case True
    from query_starts [OF Cons.prems(1)] q True
    have st: "inFlight en1 k = Some p'"
      "count_list (invocations en1) k = Suc (count_list (invocations en) k)" by simp_all
    from queries_in_flight [OF st(1) qs]
    have rest: "count_list (invocations en2) k = count_list (invocations en1) k"
      "\<forall>i<length ks. ks ! i = k \<longrightarrow> ps' ! i = p'" by simp_all
    have "\<forall>i<length (k' # ks). (k' # ks) ! i = k \<longrightarrow> ps ! i = p'"
      unfolding ps using rest(2) by (auto simp add: nth_Cons split: nat.splits)
    then show ?thesis using st(2) rest(1) en' by auto
  next
    case False
    from query_other [OF False q] Cons.prems(1)
    have same: "inFlight en1 k = None"
      "count_list (invocations en1) k = count_list (invocations en) k" by simp_all
    from Cons.prems(2) False have mem: "k \<in> set ks" by simp
    from Cons.IH [OF same(1) mem qs]
    obtain p where ih: "count_list (invocations en2) k = Suc (count_list (invocations en1) k)"
      "\<forall>i<length ks. ks ! i = k \<longrightarrow> ps' ! i = p" by auto
    have "\<forall>i<length (k' # ks). (k' # ks) ! i = k \<longrightarrow> ps ! i = p"
      unfolding ps using ih(2) False by (auto simp add: nth_Cons split: nat.splits)
    then show ?thesis using ih(1) same(2) en' by auto
  qed
qed

text \<open>
  Claim C8 (request coalescing). Of the calls issued one after the other before any
  fetch completes, those for a key \<open>k\<close> that was not in flight start exactly one fetch
  of \<open>k\<close>, however many they are and whatever calls for other keys come between them,
  and every caller for \<open>k\<close> receives the same pending result.
\<close>

theorem coalescing:
  "inFlight en k = None \<Longrightarrow> k \<in> set ks \<Longrightarrow>
   count_list (invocations (snd (queries ks en))) k = Suc (count_list (invocations en) k) \<and>
   (\<exists>p. \<forall>i<length ks. ks ! i = k \<longrightarrow> fst (queries ks en) ! i = p)"
  using queries_first_fetch [of en k ks "fst (queries ks en)" "snd (queries ks en)"]
  by simp

theorem coalescing_witness:
  "inFlight idle_engine users_key = None \<and>
   users_key \<in> set [users_key, [KeyString ''posts''], users_key, users_key] \<and>
   count_list (invocations (snd (queries
     [users_key, [KeyString ''posts''], users_key, users_key] idle_engine))) users_key = 1 \<and>
   fst (queries [users_key, [KeyString ''posts''], users_key, users_key] idle_engine)
     = [0, 1, 0, 0]"
proof -
  have idle: "inFlight idle_engine users_key = None"
    by (simp add: idle_engine_def)
  have mem: "users_key \<in> set [users_key, [KeyString ''posts''], users_key, users_key]"
    by simp
  have key: "users_key = [KeyString ''users'', KeyNumber 0, KeyNumber 10]"
    by (simp add: users_key_def usePagination_options_def mergeQueryOptions_def
        defaultOptions_def initialState_def)
  have run: "fst (queries [users_key, [KeyString ''posts''], users_key, users_key] idle_engine)
      = [0, 1, 0, 0]"
    by (simp add: key idle_engine_def query_def Let_def)
  show ?thesis
    using idle mem run coalescing [OF idle mem] by (simp add: idle_engine_def)
qed

end
